theory Spec2Isabelle
  imports Main
begin

section \<open>The decoded input stream (the part of zlib's \<open>gzFile\<close> the program uses)\<close>

text \<open>
  \<open>mc-playtime-calc.c\<close> reads every log through zlib: \<open>gzopen\<close>, \<open>gzgetc\<close>,
  \<open>gzungetc\<close>, \<open>gzeof\<close>, \<open>gzclose\<close>. The library is not part of the repository; the
  stream is modelled by its documented behaviour. A stream delivers a finite sequence of
  decoded bytes; what comes after them is either the end of the file or a failure of the
  read (a damaged archive, a directory that was opened), recorded in \<open>gz_err\<close>:
  \<^item> \<open>gzgetc\<close> returns the next byte, or -1 (here \<open>None\<close>) when none is left. At the end
    of the file it then sets the end-of-file indicator; on a failed read it returns -1 as
    well and leaves the indicator as it is;
  \<^item> \<open>gzeof\<close> reads that indicator: like \<open>feof\<close>, it is set only once a read has tried
    to go past the end of the file;
  \<^item> \<open>gzungetc\<close> pushes one byte back and clears the indicator;
  \<^item> \<open>gzclose\<close> releases the stream.
\<close>

record gz =
  gz_buf :: "char list"
  gz_past :: bool
  gz_open :: bool
  gz_err :: bool

text \<open>A freshly opened stream over bytes that end at the end of the file.\<close>

definition gzstream :: "char list \<Rightarrow> gz" where
  "gzstream bs = \<lparr>gz_buf = bs, gz_past = False, gz_open = True, gz_err = False\<rparr>"

text \<open>A freshly opened stream whose reads fail once the bytes are used up.\<close>

definition gzfailing :: "char list \<Rightarrow> gz" where
  "gzfailing bs = \<lparr>gz_buf = bs, gz_past = False, gz_open = True, gz_err = True\<rparr>"

definition gzgetc :: "gz \<Rightarrow> char option \<times> gz" where
  "gzgetc g = (case gz_buf g of
       [] \<Rightarrow> (None, if gz_err g then g else g\<lparr>gz_past := True\<rparr>)
     | c # cs \<Rightarrow> (Some c, g\<lparr>gz_buf := cs\<rparr>))"

definition gzungetc :: "char \<Rightarrow> gz \<Rightarrow> gz" where
  "gzungetc c g = g\<lparr>gz_buf := c # gz_buf g, gz_past := False\<rparr>"

definition gzeof :: "gz \<Rightarrow> bool" where
  "gzeof g = gz_past g"

definition gzclose :: "gz \<Rightarrow> gz" where
  "gzclose g = g\<lparr>gz_open := False\<rparr>"

section \<open>\<open>parseLine\<close>: the timestamp scanner\<close>

text \<open>\<open>isdigit\<close> of \<open>ctype.h\<close> and the value \<open>ch - '0'\<close> of a digit.\<close>

definition isdigit :: "char \<Rightarrow> bool" where
  "isdigit c \<longleftrightarrow> (48::nat) \<le> of_char c \<and> of_char c \<le> (57::nat)"

definition digit_val :: "char \<Rightarrow> int" where
  "digit_val c = int (of_char c) - 48"

definition is_eol :: "char \<Rightarrow> bool" where
  "is_eol c \<longleftrightarrow> c = CHR 0x0D \<or> c = CHR 0x0A"

text \<open>
  The \<open>for\<close> loop of \<open>parseLine\<close> over the tag \<open>"[hh:mm:ss]"\<close>: the remaining tag is
  the first argument, \<open>(hour, minute, second)\<close> the second. \<open>None\<close> is \<open>return 1\<close>.
\<close>

fun scan_tag :: "char list \<Rightarrow> int \<times> int \<times> int \<Rightarrow> gz \<Rightarrow> (int \<times> int \<times> int) option \<times> gz" where
  "scan_tag [] hms g = (Some hms, g)"
| "scan_tag (t # ts) (hour, minute, second) g =
     (case gzgetc g of
        (None, g') \<Rightarrow> (None, g')
      | (Some ch, g') \<Rightarrow>
          if t = CHR ''h'' \<or> t = CHR ''m'' \<or> t = CHR ''s'' then
            if \<not> isdigit ch then (None, g')
            else if t = CHR ''h'' then scan_tag ts (hour * 10 + digit_val ch, minute, second) g'
            else if t = CHR ''m'' then scan_tag ts (hour, minute * 10 + digit_val ch, second) g'
            else scan_tag ts (hour, minute, second * 10 + digit_val ch) g'
          else if ch \<noteq> t then (None, g')
          else scan_tag ts (hour, minute, second) g')"

text \<open>Line 54: \<open>while ((ch = gzgetc(gf)) != EOF && ch != '\r' && ch != '\n');\<close>\<close>

function skip_line :: "gz \<Rightarrow> gz" where
  "skip_line g =
     (case gzgetc g of
        (None, g') \<Rightarrow> g'
      | (Some ch, g') \<Rightarrow> if \<not> is_eol ch then skip_line g' else g')"
  by pat_completeness auto
termination
  by (relation "measure (\<lambda>g. length (gz_buf g))")
     (auto simp: gzgetc_def split: list.splits)

text \<open>
  Line 55: \<open>while ((ch = gzgetc(gf)) != EOF && (ch == '\r' || ch == '\n'));\<close>
  The result carries the last value of \<open>ch\<close>.
\<close>

function skip_eols :: "gz \<Rightarrow> char option \<times> gz" where
  "skip_eols g =
     (case gzgetc g of
        (None, g') \<Rightarrow> (None, g')
      | (Some ch, g') \<Rightarrow> if is_eol ch then skip_eols g' else (Some ch, g'))"
  by pat_completeness auto
termination
  by (relation "measure (\<lambda>g. length (gz_buf g))")
     (auto simp: gzgetc_def split: list.splits)

text \<open>
  \<open>parseLine\<close>: \<open>Some t\<close> is \<open>return 0\<close> with \<open>*time = t\<close>; \<open>None\<close> is \<open>return 1\<close>,
  which leaves \<open>*time\<close> untouched. \<open>time_t\<close> is modelled by \<open>int\<close>: the three fields
  are at most 99, so no value of this function comes near the limits of \<open>time_t\<close>.
\<close>

definition parseLine :: "gz \<Rightarrow> int option \<times> gz" where
  "parseLine g =
     (case scan_tag ''[hh:mm:ss]'' (0, 0, 0) g of
        (None, g1) \<Rightarrow> (None, g1)
      | (Some (hour, minute, second), g1) \<Rightarrow>
          (case skip_eols (skip_line g1) of
             (None, g3) \<Rightarrow> (Some ((hour * 60 + minute) * 60 + second), g3)
           | (Some ch, g3) \<Rightarrow> (Some ((hour * 60 + minute) * 60 + second), gzungetc ch g3)))"

declare skip_line.simps [simp del] skip_eols.simps [simp del]

section \<open>The result of \<open>parseLine\<close> and the template\<close>

lemma eol_not_digit: "is_eol c \<Longrightarrow> \<not> isdigit c"
  by (auto simp: is_eol_def isdigit_def)

lemma scan_tag_empty:
  "gz_buf g = [] \<Longrightarrow> fst (scan_tag (t # ts) hms g) = None"
  by (cases hms) (simp add: gzgetc_def)

lemma scan_tag_step:
  assumes "gz_buf g = c # cs" "\<not> is_eol t" "scan_tag (t # ts) hms g = (r, g')"
  shows "(r = None \<and> g' = g\<lparr>gz_buf := cs\<rparr>) \<or>
         (\<not> is_eol c \<and> (\<exists>hms'. scan_tag ts hms' (g\<lparr>gz_buf := cs\<rparr>) = (r, g')))"
proof -
  obtain hour minute second where hms: "hms = (hour, minute, second)" by (cases hms) auto
  have get: "gzgetc g = (Some c, g\<lparr>gz_buf := cs\<rparr>)" using assms(1) by (simp add: gzgetc_def)
  show ?thesis
  proof (cases "is_eol c")
    case True
    then have "\<not> isdigit c" "c \<noteq> t" using assms(2) eol_not_digit by auto
    then show ?thesis using assms(3) by (auto simp: hms get split: if_splits)
  next
    case False
    then show ?thesis using assms(3) by (auto simp: hms get split: if_splits)
  qed
qed

lemma scan_tag_Some:
  assumes "\<forall>t \<in> set ts. \<not> is_eol t" "scan_tag ts hms g = (Some r, g')"
  shows "length ts \<le> length (gz_buf g) \<and> g' = g\<lparr>gz_buf := drop (length ts) (gz_buf g)\<rparr>
       \<and> (\<forall>c \<in> set (take (length ts) (gz_buf g)). \<not> is_eol c)"
  using assms
proof (induction ts arbitrary: hms g)
  case Nil
  then show ?case by simp
next
  case (Cons t ts)
  have t: "\<not> is_eol t" and ts: "\<forall>t \<in> set ts. \<not> is_eol t" using Cons.prems(1) by auto
  show ?case
  proof (cases "gz_buf g")
    case Nil
    then show ?thesis using Cons.prems(2) scan_tag_empty[of g t ts hms] by simp
  next
    case c: (Cons c cs)
    let ?g1 = "g\<lparr>gz_buf := cs\<rparr>"
    from scan_tag_step[OF c t Cons.prems(2)]
    obtain hms' where go: "scan_tag ts hms' ?g1 = (Some r, g')" "\<not> is_eol c"
      by blast
    from Cons.IH[OF ts go(1)]
    have "length ts \<le> length cs" "g' = ?g1\<lparr>gz_buf := drop (length ts) cs\<rparr>"
       "\<forall>c \<in> set (take (length ts) cs). \<not> is_eol c" by auto
    then show ?thesis using c go(2) by simp
  qed
qed

text \<open>
  The template of the specification, written out: a buffer starts with \<open>[HH:MM:SS]\<close> when
  its first ten bytes are a bracket, two digits, a colon, two digits, a colon, two digits and
  a bracket. \<open>template_timestamp\<close> is then the value \<open>(h * 60 + m) * 60 + s\<close> of the three
  two-digit fields.
\<close>

definition two_digits :: "char \<Rightarrow> char \<Rightarrow> int" where
  "two_digits a b = digit_val a * 10 + digit_val b"

definition template_timestamp :: "char list \<Rightarrow> int option" where
  "template_timestamp bs =
     (if 10 \<le> length bs \<and> bs ! 0 = CHR ''['' \<and> isdigit (bs ! 1) \<and> isdigit (bs ! 2) \<and> bs ! 3 = CHR '':''
         \<and> isdigit (bs ! 4) \<and> isdigit (bs ! 5) \<and> bs ! 6 = CHR '':'' \<and> isdigit (bs ! 7) \<and> isdigit (bs ! 8)
         \<and> bs ! 9 = CHR '']''
      then Some ((two_digits (bs ! 1) (bs ! 2) * 60 + two_digits (bs ! 4) (bs ! 5)) * 60
                   + two_digits (bs ! 7) (bs ! 8))
      else None)"

lemma tag_no_eol: "\<forall>t \<in> set ''[hh:mm:ss]''. \<not> is_eol t"
  by (simp add: is_eol_def)

lemma tag_length: "length ''[hh:mm:ss]'' = 10"
  by simp

lemma length_ge_10:
  assumes "10 \<le> length bs"
  obtains b0 b1 b2 b3 b4 b5 b6 b7 b8 b9 rest
  where "bs = b0 # b1 # b2 # b3 # b4 # b5 # b6 # b7 # b8 # b9 # rest"
proof -
  define rest where "rest = drop 10 bs"
  define xs where "xs = take 10 bs"
  have "length xs = 10" using assms by (simp add: xs_def)
  then obtain b0 b1 b2 b3 b4 b5 b6 b7 b8 b9 where "xs = [b0, b1, b2, b3, b4, b5, b6, b7, b8, b9]"
    by (auto simp: numeral_eq_Suc length_Suc_conv)
  moreover have "bs = xs @ rest" by (simp add: rest_def xs_def)
  ultimately have "bs = b0 # b1 # b2 # b3 # b4 # b5 # b6 # b7 # b8 # b9 # rest" by simp
  then show ?thesis by (rule that)
qed

lemma template_timestamp_Cons:
  "template_timestamp (b0 # h1 # h2 # c1 # m1 # m2 # c2 # s1 # s2 # b1 # rest) =
     (if b0 = CHR ''['' \<and> isdigit h1 \<and> isdigit h2 \<and> c1 = CHR '':'' \<and> isdigit m1 \<and> isdigit m2
         \<and> c2 = CHR '':'' \<and> isdigit s1 \<and> isdigit s2 \<and> b1 = CHR '']''
      then Some ((two_digits h1 h2 * 60 + two_digits m1 m2) * 60 + two_digits s1 s2)
      else None)"
  by (simp add: template_timestamp_def)


lemma scan_tag_fst_Cons:
  assumes "gz_buf g = b0 # h1 # h2 # c1 # m1 # m2 # c2 # s1 # s2 # b1 # rest"
  shows "fst (scan_tag ''[hh:mm:ss]'' (0, 0, 0) g) =
     (if b0 = CHR ''['' \<and> isdigit h1 \<and> isdigit h2 \<and> c1 = CHR '':'' \<and> isdigit m1 \<and> isdigit m2
         \<and> c2 = CHR '':'' \<and> isdigit s1 \<and> isdigit s2 \<and> b1 = CHR '']''
      then Some (two_digits h1 h2, two_digits m1 m2, two_digits s1 s2)
      else None)"
  using assms by (simp add: gzgetc_def two_digits_def)

lemma parseLine_fst_scan:
  "fst (parseLine g) =
     (case fst (scan_tag ''[hh:mm:ss]'' (0, 0, 0) g) of
        None \<Rightarrow> None
      | Some (hour, minute, second) \<Rightarrow> Some ((hour * 60 + minute) * 60 + second))"
proof (cases "scan_tag ''[hh:mm:ss]'' (0, 0, 0) g")
  case (Pair r g1)
  show ?thesis
  proof (cases r)
    case None
    then show ?thesis unfolding parseLine_def Pair by simp
  next
    case (Some hms)
    obtain ch g3 where s: "skip_eols (skip_line g1) = (ch, g3)" by (cases "skip_eols (skip_line g1)")
    show ?thesis unfolding parseLine_def Pair Some
      by (cases hms; cases ch) (simp_all add: s)
  qed
qed

lemma parseLine_fst: "fst (parseLine g) = template_timestamp (gz_buf g)"
proof (cases "10 \<le> length (gz_buf g)")
  case True
  then obtain b0 h1 h2 c1 m1 m2 c2 s1 s2 b1 rest
    where buf: "gz_buf g = b0 # h1 # h2 # c1 # m1 # m2 # c2 # s1 # s2 # b1 # rest"
    by (rule length_ge_10)
  show ?thesis
    unfolding parseLine_fst_scan scan_tag_fst_Cons[OF buf] buf template_timestamp_Cons
    by simp
next
  case False
  then have "template_timestamp (gz_buf g) = None" by (simp add: template_timestamp_def)
  moreover have "fst (scan_tag ''[hh:mm:ss]'' (0, 0, 0) g) = None"
  proof (cases "scan_tag ''[hh:mm:ss]'' (0, 0, 0) g")
    case (Pair r g1)
    have "r = None"
    proof (cases r)
      case (Some hms)
      from scan_tag_Some[OF tag_no_eol Pair[unfolded Some]] False show ?thesis by simp
    qed simp
    then show ?thesis unfolding Pair by simp
  qed
  ultimately show ?thesis unfolding parseLine_fst_scan by simp
qed

section \<open>\<open>parseFile\<close>: the two scanning loops\<close>

text \<open>
  Lines 72 to 74: \<open>while (parseLine(gf, &start) == 1) if (gzeof(gf) == 1) return 2;\<close>
  The loop need not end, so the result is an option: \<open>None\<close> is a loop that never ends,
  \<open>Some (None, gf)\<close> is the \<open>return 2\<close> from inside the loop.
\<close>

partial_function (option) find_start :: "gz \<Rightarrow> (int option \<times> gz) option" where
  "find_start gf =
     (case parseLine gf of
        (Some start, gf') \<Rightarrow> Some (Some start, gf')
      | (None, gf') \<Rightarrow> if gzeof gf' then Some (None, gf') else find_start gf')"

text \<open>
  Lines 76 to 78: \<open>while (gzeof(gf) == 0) if (parseLine(gf, &tmp) == 0) end = tmp;\<close>
\<close>

partial_function (option) scan_end :: "int \<Rightarrow> gz \<Rightarrow> (int \<times> gz) option" where
  "scan_end end gf =
     (if gzeof gf then Some (end, gf)
      else (case parseLine gf of
              (Some tmp, gf') \<Rightarrow> scan_end tmp gf'
            | (None, gf') \<Rightarrow> scan_end end gf'))"

declare find_start.simps [code] scan_end.simps [code]

text \<open>
  The three return codes of \<open>parseFile\<close>: 0 with \<open>*time\<close> written, 1 (the file could not
  be opened), 2 (no timestamp found).
\<close>

datatype outcome = Parsed int | SystemFailure | FormatFailure

text \<open>
  \<open>parseFile\<close> from line 71 on, for a stream that \<open>gzopen\<close> has returned: \<open>None\<close> when
  one of the loops never ends. The stream is returned with the outcome, so that what
  happened to it can be observed. The \<open>printf\<close> of line 81 is not modelled.
\<close>

definition parseFile_stream :: "gz \<Rightarrow> (outcome \<times> gz) option" where
  "parseFile_stream gf =
     (case find_start gf of
        None \<Rightarrow> None
      | Some (None, gf1) \<Rightarrow> Some (FormatFailure, gf1)
      | Some (Some start, gf1) \<Rightarrow>
          (case scan_end start gf1 of
             None \<Rightarrow> None
           | Some (end, gf2) \<Rightarrow> Some (Parsed (end - start), gzclose gf2)))"

section \<open>Streams on which the reads fail\<close>

text \<open>
  A stream whose reads fail after its bytes, with the end-of-file indicator clear. No
  function of the scanner changes that, so \<open>gzeof\<close> stays 0 for ever.
\<close>

definition read_fails :: "gz \<Rightarrow> bool" where
  "read_fails g \<longleftrightarrow> gz_err g \<and> \<not> gz_past g"

lemma gzgetc_read_fails: "read_fails g \<Longrightarrow> read_fails (snd (gzgetc g))"
  by (auto simp: read_fails_def gzgetc_def split: list.splits)

lemma scan_tag_read_fails: "read_fails g \<Longrightarrow> read_fails (snd (scan_tag ts hms g))"
proof (induction ts arbitrary: hms g)
  case Nil
  then show ?case by simp
next
  case (Cons t ts)
  obtain hour minute second where hms: "hms = (hour, minute, second)" by (cases hms) auto
  obtain c g1 where g: "gzgetc g = (c, g1)" by (cases "gzgetc g")
  have g1: "read_fails g1" using gzgetc_read_fails[OF Cons.prems] g by simp
  show ?case
  proof (cases c)
    case None
    then show ?thesis using g g1 by (simp add: hms)
  next
    case (Some ch)
    then show ?thesis using g g1 Cons.IH[OF g1] by (simp add: hms)
  qed
qed

lemma skip_line_read_fails: "read_fails g \<Longrightarrow> read_fails (skip_line g)"
proof (induction g rule: skip_line.induct)
  case (1 g)
  obtain c g1 where g: "gzgetc g = (c, g1)" by (cases "gzgetc g")
  have g1: "read_fails g1" using gzgetc_read_fails[OF "1.prems"] g by simp
  show ?case
  proof (cases c)
    case None
    then show ?thesis using g g1 by (subst skip_line.simps) simp
  next
    case (Some ch)
    then show ?thesis using g g1 "1.IH"[OF g[symmetric] Some _ g1]
      by (subst skip_line.simps) simp
  qed
qed

lemma skip_eols_read_fails:
  "read_fails g \<Longrightarrow>
     read_fails (case skip_eols g of (None, g3) \<Rightarrow> g3 | (Some ch, g3) \<Rightarrow> gzungetc ch g3)"
proof (induction g rule: skip_eols.induct)
  case (1 g)
  obtain c g1 where g: "gzgetc g = (c, g1)" by (cases "gzgetc g")
  have g1: "read_fails g1" using gzgetc_read_fails[OF "1.prems"] g by simp
  show ?case
  proof (cases c)
    case None
    then show ?thesis using g g1 by (subst skip_eols.simps) simp
  next
    case (Some ch)
    show ?thesis
    proof (cases "is_eol ch")
      case True
      then show ?thesis using g Some "1.IH"[OF g[symmetric] Some True g1]
        by (subst skip_eols.simps) simp
    next
      case False
      have "read_fails (gzungetc ch g1)" using g1 by (simp add: read_fails_def gzungetc_def)
      then show ?thesis using g Some False by (subst skip_eols.simps) simp
    qed
  qed
qed

lemma parseLine_read_fails:
  assumes "read_fails g"
  shows "read_fails (snd (parseLine g))"
proof (cases "scan_tag ''[hh:mm:ss]'' (0, 0, 0) g")
  case (Pair r g1)
  have g1: "read_fails g1" using scan_tag_read_fails[OF assms, of "''[hh:mm:ss]''" "(0, 0, 0)"] Pair
    by simp
  show ?thesis
  proof (cases r)
    case None
    then show ?thesis using g1 unfolding parseLine_def Pair by simp
  next
    case (Some hms)
    obtain ch g3 where s: "skip_eols (skip_line g1) = (ch, g3)" by (cases "skip_eols (skip_line g1)")
    from skip_eols_read_fails[OF skip_line_read_fails[OF g1]] s
    show ?thesis unfolding parseLine_def Pair Some
      by (cases hms; cases ch) (simp_all add: s)
  qed
qed


lemma scan_end_never_returns:
  assumes "read_fails gf"
  shows "scan_end e gf = None"
proof -
  have "\<not> read_fails gf" if "scan_end e gf = Some y" for y
  proof (rule scan_end.raw_induct[where P = "\<lambda>e gf y. \<not> read_fails gf", OF _ that])
    fix f :: "int \<Rightarrow> gz \<Rightarrow> (int \<times> gz) option" and e gf y
    assume IH: "\<And>e gf y. f e gf = Some y \<Longrightarrow> \<not> read_fails gf"
      and eq: "(if gzeof gf then Some (e, gf)
                else case parseLine gf of (None, gf') \<Rightarrow> f e gf' | (Some tmp, gf') \<Rightarrow> f tmp gf') = Some y"
    show "\<not> read_fails gf"
    proof
      assume rf: "read_fails gf"
      then have neof: "\<not> gzeof gf" by (simp add: read_fails_def gzeof_def)
      obtain r gf' where p: "parseLine gf = (r, gf')" by (cases "parseLine gf")
      have rf': "read_fails gf'" using parseLine_read_fails[OF rf] p by simp
      from eq neof p obtain e' where "f e' gf' = Some y"
        by (cases r) auto
      from IH[OF this] rf' show False by simp
    qed
  qed
  then show ?thesis using assms by (cases "scan_end e gf") auto
qed

lemma find_start_read_fails:
  assumes "find_start gf = Some y" "read_fails gf"
  shows "\<exists>start gf'. y = (Some start, gf') \<and> read_fails gf'"
proof -
  have "read_fails gf \<longrightarrow> (\<exists>start gf'. y = (Some start, gf') \<and> read_fails gf')"
  proof (rule find_start.raw_induct[where
        P = "\<lambda>gf y. read_fails gf \<longrightarrow> (\<exists>start gf'. y = (Some start, gf') \<and> read_fails gf')",
        OF _ assms(1)])
    fix f :: "gz \<Rightarrow> (int option \<times> gz) option" and gf y
    assume IH: "\<And>gf y. f gf = Some y \<Longrightarrow>
          read_fails gf \<longrightarrow> (\<exists>start gf'. y = (Some start, gf') \<and> read_fails gf')"
      and eq: "(case parseLine gf of
                  (None, gf') \<Rightarrow> if gzeof gf' then Some (None, gf') else f gf'
                | (Some start, gf') \<Rightarrow> Some (Some start, gf')) = Some y"
    show "read_fails gf \<longrightarrow> (\<exists>start gf'. y = (Some start, gf') \<and> read_fails gf')"
    proof
      assume rf: "read_fails gf"
      obtain r gf' where p: "parseLine gf = (r, gf')" by (cases "parseLine gf")
      have rf': "read_fails gf'" using parseLine_read_fails[OF rf] p by simp
      then have neof: "\<not> gzeof gf'" by (simp add: read_fails_def gzeof_def)
      show "\<exists>start gf'. y = (Some start, gf') \<and> read_fails gf'"
      proof (cases r)
        case None
        with eq p neof have "f gf' = Some y" by simp
        from IH[OF this] rf' show ?thesis by simp
      next
        case (Some start)
        with eq p have "y = (Some start, gf')" by simp
        then show ?thesis using rf' by simp
      qed
    qed
  qed
  then show ?thesis using assms(2) by simp
qed

lemma parseFile_stream_never_returns:
  assumes "read_fails gf"
  shows "parseFile_stream gf = None"
proof (cases "find_start gf")
  case None
  then show ?thesis by (simp add: parseFile_stream_def)
next
  case (Some y)
  from find_start_read_fails[OF Some assms]
  obtain start gf' where y: "y = (Some start, gf')" and rf: "read_fails gf'" by blast
  show ?thesis using Some scan_end_never_returns[OF rf, of start]
    by (simp add: parseFile_stream_def y)
qed

section \<open>\<open>isLogGzFile\<close>: the file-name filter\<close>

text \<open>
  A C string is modelled by the list of its bytes before the terminating NUL;
  \<open>c_at s i\<close> is \<open>s[i]\<close> for \<open>i\<close> up to \<open>strlen(s)\<close>, where it is the NUL.
\<close>

definition c_at :: "string \<Rightarrow> nat \<Rightarrow> char" where
  "c_at s i = (if i < length s then s ! i else CHR 0x00)"

definition log_format :: string where
  "log_format = ''nnnn-nn-nn-n.log.gz''"

function isLogGzFile_from :: "string \<Rightarrow> nat \<Rightarrow> bool" where
  "isLogGzFile_from name i =
     (if c_at log_format i = CHR ''n'' then
        (if \<not> isdigit (c_at name i) then False else isLogGzFile_from name (i + 1))
      else
        (if c_at name i \<noteq> c_at log_format i then False
         else if c_at log_format i = CHR 0x00 then True
         else isLogGzFile_from name (i + 1)))"
  by pat_completeness auto
termination
  by (relation "measure (\<lambda>(name, i). length log_format - i)")
     (auto simp: c_at_def split: if_splits)

declare isLogGzFile_from.simps [simp del]

definition isLogGzFile :: "string \<Rightarrow> bool" where
  "isLogGzFile name = isLogGzFile_from name 0"

section \<open>The file system and the working directory\<close>

text \<open>
  The directory functions of the program (\<open>chdir\<close>, \<open>opendir\<close>, \<open>readdir\<close>, \<open>stat\<close>,
  \<open>getcwd\<close>, \<open>basename\<close>) and \<open>gzopen\<close> belong to the operating system and to zlib. They
  are modelled on a tree of files without links. A regular file holds its decoded bytes and
  whether the reads fail after them (a damaged archive), or \<open>None\<close> when it cannot be opened
  for reading; a directory holds its search permission, its read permission and its entries.
  The program never changes the tree; what it changes is the working directory, kept as the
  list of names from the root.
\<close>

datatype node =
    RegFile "(char list \<times> bool) option"
  | Directory bool bool "(string \<times> node) list"
  | Special

record world =
  fs_root :: node
  cwd :: "string list"

fun lookup_node :: "node \<Rightarrow> string list \<Rightarrow> node option" where
  "lookup_node n [] = Some n"
| "lookup_node (Directory srch rd entries) (x # xs) =
     (case map_of entries x of None \<Rightarrow> None | Some n \<Rightarrow> lookup_node n xs)"
| "lookup_node (RegFile c) (x # xs) = None"
| "lookup_node Special (x # xs) = None"

text \<open>The components of a path: the pieces between slashes, empty pieces dropped.\<close>

fun split_path :: "string \<Rightarrow> string list" where
  "split_path [] = [[]]"
| "split_path (c # cs) =
     (if c = CHR ''/'' then [] # split_path cs
      else (case split_path cs of [] \<Rightarrow> [[c]] | x # xs \<Rightarrow> (c # x) # xs))"

definition components :: "string \<Rightarrow> string list" where
  "components p = filter (\<lambda>x. x \<noteq> []) (split_path p)"

text \<open>
  Walking a path from a directory: every directory on the way must exist and be
  searchable; \<open>.\<close> stays, \<open>..\<close> goes to the parent (the root is its own parent).
\<close>

fun walk :: "node \<Rightarrow> string list \<Rightarrow> string list \<Rightarrow> string list option" where
  "walk r cur [] = Some cur"
| "walk r cur (c # cs) =
     (case lookup_node r cur of
        Some (Directory srch rd entries) \<Rightarrow>
          if \<not> srch then None
          else if c = ''.'' then walk r cur cs
          else if c = ''..'' then walk r (butlast cur) cs
          else (case map_of entries c of None \<Rightarrow> None | Some n \<Rightarrow> walk r (cur @ [c]) cs)
      | _ \<Rightarrow> None)"

definition is_directory :: "node \<Rightarrow> bool" where
  "is_directory n = (case n of Directory srch rd entries \<Rightarrow> True | _ \<Rightarrow> False)"

text \<open>
  Where a path leads, from the working directory or, with a leading slash, from the root.
  The empty path leads nowhere, and a path that ends in a slash leads to a directory only.
\<close>

definition locate :: "string \<Rightarrow> world \<Rightarrow> string list option" where
  "locate p w =
     (if p = [] then None
      else (case walk (fs_root w) (if hd p = CHR ''/'' then [] else cwd w) (components p) of
              None \<Rightarrow> None
            | Some loc \<Rightarrow>
                (case lookup_node (fs_root w) loc of
                   None \<Rightarrow> None
                 | Some n \<Rightarrow> if last p = CHR ''/'' \<and> \<not> is_directory n then None else Some loc)))"

text \<open>What \<open>stat\<close> finds at a path: \<open>None\<close> is the return value -1.\<close>

definition resolve :: "string \<Rightarrow> world \<Rightarrow> node option" where
  "resolve p w = (case locate p w of None \<Rightarrow> None | Some loc \<Rightarrow> lookup_node (fs_root w) loc)"

text \<open>\<open>chdir\<close>: \<open>None\<close> is a return value other than 0.\<close>

definition chdir :: "string \<Rightarrow> world \<Rightarrow> world option" where
  "chdir p w =
     (case locate p w of
        None \<Rightarrow> None
      | Some loc \<Rightarrow>
          (case lookup_node (fs_root w) loc of
             Some (Directory srch rd entries) \<Rightarrow> if srch then Some (w\<lparr>cwd := loc\<rparr>) else None
           | _ \<Rightarrow> None))"

text \<open>
  \<open>opendir(".")\<close> followed by the \<open>readdir\<close> calls until \<open>NULL\<close>: the names of the working
  directory, \<open>.\<close> and \<open>..\<close> among them; \<open>None\<close> when \<open>opendir\<close> returns \<open>NULL\<close>.
\<close>

definition opendir_dot :: "world \<Rightarrow> string list option" where
  "opendir_dot w =
     (case lookup_node (fs_root w) (cwd w) of
        Some (Directory srch rd entries) \<Rightarrow>
          if rd then Some (''.'' # ''..'' # map fst entries) else None
      | _ \<Rightarrow> None)"

text \<open>
  \<open>gzopen(path, "r")\<close>: \<open>None\<close> is \<open>NULL\<close>. A regular file gives a stream over its bytes.
  A directory that may be read is opened as well, since \<open>open\<close> succeeds on it, and every
  read from it fails. Opening a special file is taken to fail.
\<close>

definition gzopen :: "string \<Rightarrow> world \<Rightarrow> gz option" where
  "gzopen path w =
     (case resolve path w of
        Some (RegFile (Some (bs, damaged))) \<Rightarrow> Some (if damaged then gzfailing bs else gzstream bs)
      | Some (Directory srch rd entries) \<Rightarrow> if rd then Some (gzfailing []) else None
      | _ \<Rightarrow> None)"

text \<open>\<open>getcwd\<close> always succeeds in this model; \<open>basename\<close> of its result.\<close>

definition cwd_basename :: "world \<Rightarrow> string" where
  "cwd_basename w = (if cwd w = [] then ''/'' else last (cwd w))"

section \<open>\<open>parseFile\<close>, \<open>parseDirectory\<close>, \<open>parseDotMinecraftDirectory\<close>, \<open>autoParse\<close>\<close>

text \<open>
  In all these functions \<open>None\<close> is a call that never returns. \<open>parseFile\<close> gives the
  outcome and the stream it opened as it leaves it (\<open>None\<close> when \<open>gzopen\<close> returned
  \<open>NULL\<close>). It does not touch the working directory.
\<close>

definition parseFile :: "string \<Rightarrow> world \<Rightarrow> (outcome \<times> gz option) option" where
  "parseFile path w =
     (case gzopen path w of
        None \<Rightarrow> Some (SystemFailure, None)
      | Some gf \<Rightarrow>
          (case parseFile_stream gf of
             None \<Rightarrow> None
           | Some (r, gf') \<Rightarrow> Some (r, Some gf')))"

text \<open>
  The directory functions return the number of parsed files with \<open>*time\<close> written, or -1
  with \<open>*time\<close> untouched. \<open>chdir_s\<close> ends the process with \<open>exit(1)\<close> when \<open>chdir\<close>
  fails: that is \<open>Exit\<close>. The counters are modelled by \<open>int\<close>.
\<close>

datatype dir_result = DirFailure | DirResult int int

datatype 'a proc = Exit | Return 'a

definition chdir_s :: "string \<Rightarrow> world \<Rightarrow> world proc" where
  "chdir_s path w = (case chdir path w of None \<Rightarrow> Exit | Some w' \<Rightarrow> Return w')"

text \<open>
  Lines 140 to 145, the \<open>readdir\<close> loop, on the pair \<open>(sum, file)\<close>, the variable \<open>sum\<close>
  written \<open>tsum\<close>.
\<close>

fun read_logs :: "string list \<Rightarrow> world \<Rightarrow> int \<times> int \<Rightarrow> (int \<times> int) option" where
  "read_logs [] w (tsum, file) = Some (tsum, file)"
| "read_logs (d_name # rest) w (tsum, file) =
     (if isLogGzFile d_name then
        (case parseFile d_name w of
           None \<Rightarrow> None
         | Some (r, gf) \<Rightarrow>
             (case r of
                Parsed tmp \<Rightarrow> read_logs rest w (tsum + tmp, file + 1)
              | _ \<Rightarrow> read_logs rest w (tsum, file)))
      else read_logs rest w (tsum, file))"

text \<open>
  Lines 132 and 163: \<open>if (path != NULL && chdir(path) != 0) return -1;\<close> The result is
  the world after the test, \<open>None\<close> when the function returns -1 here.
\<close>

definition enter_path :: "string option \<Rightarrow> world \<Rightarrow> world option" where
  "enter_path path w = (case path of None \<Rightarrow> Some w | Some p \<Rightarrow> chdir p w)"

text \<open>Lines 146 to 152 of \<open>parseDirectory\<close>, behind the \<open>readdir\<close> loop.\<close>

definition after_listing ::
    "string option \<Rightarrow> int \<times> int \<Rightarrow> world \<Rightarrow> (dir_result \<times> world) proc option" where
  "after_listing origin acc w1 =
     (case acc of
        (tsum, file) \<Rightarrow>
          (case parseFile ''latest.log'' w1 of
             None \<Rightarrow> None
           | Some (r, gf) \<Rightarrow>
               (case (case r of Parsed tmp \<Rightarrow> (tsum + tmp, file + 1) | _ \<Rightarrow> (tsum, file)) of
                  (tsum', file') \<Rightarrow>
                    (case origin of
                       None \<Rightarrow> Some (Return (DirResult file' tsum', w1))
                     | Some p \<Rightarrow>
                         (case chdir_s p w1 of
                            Exit \<Rightarrow> Some Exit
                          | Return w2 \<Rightarrow> Some (Return (DirResult file' tsum', w2)))))))"

definition parseDirectory ::
    "string option \<Rightarrow> string option \<Rightarrow> world \<Rightarrow> (dir_result \<times> world) proc option" where
  "parseDirectory path origin w =
     (case enter_path path w of
        None \<Rightarrow> Some (Return (DirFailure, w))
      | Some w1 \<Rightarrow>
          (case opendir_dot w1 of
             None \<Rightarrow> Some (Return (DirFailure, w1))
           | Some names \<Rightarrow>
               (case read_logs names w1 (0, 0) of
                  None \<Rightarrow> None
                | Some acc \<Rightarrow> after_listing origin acc w1)))"

text \<open>Lines 175 to 184, the loop over the entries of \<open>versions\<close>.\<close>

fun versions_loop ::
    "string list \<Rightarrow> world \<Rightarrow> int \<times> int \<Rightarrow> ((int \<times> int) \<times> world) proc option" where
  "versions_loop [] w (tsum, file) = Some (Return ((tsum, file), w))"
| "versions_loop (d_name # rest) w (tsum, file) =
     (if d_name = ''.'' \<or> d_name = ''..'' then versions_loop rest w (tsum, file)
      else
        (case chdir d_name w of
           None \<Rightarrow> versions_loop rest w (tsum, file)
         | Some w1 \<Rightarrow>
             (case parseDirectory (Some ''logs'') (Some ''..'') w1 of
                None \<Rightarrow> None
              | Some Exit \<Rightarrow> Some Exit
              | Some (Return (r, w2)) \<Rightarrow>
                  (case chdir_s ''..'' w2 of
                     Exit \<Rightarrow> Some Exit
                   | Return w3 \<Rightarrow>
                       (case r of
                          DirFailure \<Rightarrow> versions_loop rest w3 (tsum, file)
                        | DirResult ret tmp \<Rightarrow> versions_loop rest w3 (tsum + tmp, file + ret))))))"

text \<open>The end of \<open>parseDotMinecraftDirectory\<close>, from the label \<open>VERSIONS_END\<close> on.\<close>

definition versions_end ::
    "string option \<Rightarrow> int \<times> int \<Rightarrow> world \<Rightarrow> (dir_result \<times> world) proc option" where
  "versions_end origin acc w =
     (case acc of
        (tsum, file) \<Rightarrow>
          (case origin of
             None \<Rightarrow> Some (Return (DirResult file tsum, w))
           | Some p \<Rightarrow>
               (case chdir_s p w of
                  Exit \<Rightarrow> Some Exit
                | Return w' \<Rightarrow> Some (Return (DirResult file tsum, w')))))"

definition parseDotMinecraftDirectory ::
    "string option \<Rightarrow> string option \<Rightarrow> world \<Rightarrow> (dir_result \<times> world) proc option" where
  "parseDotMinecraftDirectory path origin w =
     (case enter_path path w of
        None \<Rightarrow> Some (Return (DirFailure, w))
      | Some w1 \<Rightarrow>
          (case parseDirectory (Some ''logs'') (Some ''..'') w1 of
             None \<Rightarrow> None
           | Some Exit \<Rightarrow> Some Exit
           | Some (Return (r, w2)) \<Rightarrow>
               (case (case r of DirFailure \<Rightarrow> (0, 0) | DirResult ret tmp \<Rightarrow> (tmp, ret)) of
                  acc \<Rightarrow>
                    (case chdir ''versions'' w2 of
                       None \<Rightarrow> versions_end origin acc w2
                     | Some w3 \<Rightarrow>
                         (case opendir_dot w3 of
                            None \<Rightarrow>
                              (case chdir_s ''..'' w3 of
                                 Exit \<Rightarrow> Some Exit
                               | Return w5 \<Rightarrow> versions_end origin acc w5)
                          | Some names \<Rightarrow>
                              (case versions_loop names w3 acc of
                                 None \<Rightarrow> None
                               | Some Exit \<Rightarrow> Some Exit
                               | Some (Return (acc', w4)) \<Rightarrow>
                                   (case chdir_s ''..'' w4 of
                                      Exit \<Rightarrow> Some Exit
                                    | Return w5 \<Rightarrow> versions_end origin acc' w5)))))))"

text \<open>
  \<open>autoParse\<close>. The two \<open>switch\<close> statements of lines 238 to 262 are the same on the
  result of the delegate: -1 and 0 return -1 at once, any other count goes on to line 264.
  The messages on \<open>stderr\<close> are not modelled.
\<close>

definition after_delegate ::
    "string option \<Rightarrow> (dir_result \<times> world) proc option \<Rightarrow> (dir_result \<times> world) proc option" where
  "after_delegate origin res =
     (case res of
        None \<Rightarrow> None
      | Some Exit \<Rightarrow> Some Exit
      | Some (Return (DirFailure, w)) \<Rightarrow> Some (Return (DirFailure, w))
      | Some (Return (DirResult ret tmp, w)) \<Rightarrow>
          if ret = 0 then Some (Return (DirFailure, w))
          else (case origin of
                  None \<Rightarrow> Some (Return (DirResult ret tmp, w))
                | Some p \<Rightarrow>
                    (case chdir_s p w of
                       Exit \<Rightarrow> Some Exit
                     | Return w' \<Rightarrow> Some (Return (DirResult ret tmp, w')))))"

definition autoParse ::
    "string option \<Rightarrow> string option \<Rightarrow> world \<Rightarrow> (dir_result \<times> world) proc option" where
  "autoParse path0 origin w =
     (case (case path0 of None \<Rightarrow> ''.'' | Some p \<Rightarrow> p) of
        path \<Rightarrow>
          (case resolve path w of
             None \<Rightarrow> Some (Return (DirFailure, w))
           | Some (Directory srch rd entries) \<Rightarrow>
               (case chdir path w of
                  None \<Rightarrow> Some (Return (DirFailure, w))
                | Some w1 \<Rightarrow>
                    if cwd_basename w1 = ''.minecraft''
                    then after_delegate origin (parseDotMinecraftDirectory None None w1)
                    else after_delegate origin (parseDirectory None None w1))
           | Some (RegFile c) \<Rightarrow>
               (case parseFile path w of
                  None \<Rightarrow> None
                | Some (r, gf) \<Rightarrow>
                    (case r of
                       Parsed tmp \<Rightarrow> Some (Return (DirResult 1 tmp, w))
                     | _ \<Rightarrow> Some (Return (DirFailure, w))))
           | Some Special \<Rightarrow> Some (Return (DirFailure, w))))"

section \<open>An example installation\<close>

text \<open>
  A small tree on which the functions are evaluated below. \<open>logs\<close> holds two archived
  logs (100 and 200 seconds), a current log (50 seconds, with a line that carries no timestamp
  in the middle), files without any timestamp and a file that cannot be opened. \<open>empty\<close>
  is an empty directory, \<open>locked\<close> may be entered but not listed. \<open>broken\<close> holds a
  directory with the name \<open>latest.log\<close>, \<open>archive\<close> holds an archived log that is damaged
  from its first byte on. In \<open>midline.log\<close> no line starts with a timestamp, in
  \<open>oneline.log\<close> one line does.
\<close>

definition LF :: char where
  "LF = CHR 0x0A"

definition logs_dir :: node where
  "logs_dir = Directory True True
     [(''2023-10-05-1.log.gz'',
         RegFile (Some (''[00:00:00] [main/INFO]: start'' @ [LF] @ ''[00:01:40] [main/INFO]: stop'' @ [LF],
                        False))),
      (''2023-10-06-1.log.gz'',
         RegFile (Some (''[10:00:00] [main/INFO]: start'' @ [LF] @ ''[10:03:20] [main/INFO]: stop'' @ [LF],
                        False))),
      (''latest.log'',
         RegFile (Some (''[00:00:10] [main/INFO]: start'' @ [LF] @ ''java.lang.Error'' @ [LF]
                          @ ''[00:01:00] [main/INFO]: stop'' @ [LF], False))),
      (''notes.txt'', RegFile (Some (''no time in here'', False))),
      (''empty.txt'', RegFile (Some ([], False))),
      (''secret.txt'', RegFile None)]"

definition example_root :: node where
  "example_root = Directory True True
     [(''home'', Directory True True
        [(''logs'', logs_dir),
         (''empty'', Directory True True []),
         (''locked'', Directory True False []),
         (''broken'', Directory True True [(''latest.log'', Directory True True [])]),
         (''archive'', Directory True True [(''2023-10-07-1.log.gz'', RegFile (Some ([], True)))]),
         (''midline.log'', RegFile (Some (''x[00:00:10]'' @ [LF], False))),
         (''oneline.log'',
            RegFile (Some (''[00:00:10] a'' @ [LF] @ ''x[00:01:00]'' @ [LF], False)))])]"

definition example_world :: world where
  "example_world = \<lparr>fs_root = example_root, cwd = [''home'']\<rparr>"

section \<open>Lemmas about the timestamp scanner\<close>

lemma two_digits_range:
  assumes "isdigit a" "isdigit b"
  shows "0 \<le> two_digits a b \<and> two_digits a b \<le> 99"
  using assms by (auto simp: isdigit_def two_digits_def digit_val_def)

section \<open>Lemmas about the file-name filter\<close>

text \<open>
  The template of the specification, written out: exactly 19 bytes, digits in the places
  of \<open>dddd-dd-dd-d\<close>, hyphens between them, then \<open>.log.gz\<close>.
\<close>

definition log_gz_name :: "string \<Rightarrow> bool" where
  "log_gz_name name \<longleftrightarrow>
     length name = 19 \<and>
     isdigit (name ! 0) \<and> isdigit (name ! 1) \<and> isdigit (name ! 2) \<and> isdigit (name ! 3) \<and>
     name ! 4 = CHR ''-'' \<and> isdigit (name ! 5) \<and> isdigit (name ! 6) \<and>
     name ! 7 = CHR ''-'' \<and> isdigit (name ! 8) \<and> isdigit (name ! 9) \<and>
     name ! 10 = CHR ''-'' \<and> isdigit (name ! 11) \<and>
     drop 12 name = ''.log.gz''"

lemma isLogGzFile_digit:
  "c_at log_format i = CHR ''n'' \<Longrightarrow> j = i + 1 \<Longrightarrow>
     isLogGzFile_from name i = (isdigit (c_at name i) \<and> isLogGzFile_from name j)"
  by (subst isLogGzFile_from.simps) simp

lemma isLogGzFile_literal:
  "c_at log_format i = c \<Longrightarrow> j = i + 1 \<Longrightarrow> c \<noteq> CHR ''n'' \<Longrightarrow> c \<noteq> CHR 0x00 \<Longrightarrow>
     isLogGzFile_from name i = (c_at name i = c \<and> isLogGzFile_from name j)"
  by (subst isLogGzFile_from.simps) auto

lemma isLogGzFile_end:
  "c_at log_format i = CHR 0x00 \<Longrightarrow> isLogGzFile_from name i = (c_at name i = CHR 0x00)"
  by (subst isLogGzFile_from.simps) auto

lemma isLogGzFile_unfold:
  "isLogGzFile name \<longleftrightarrow>
     isdigit (c_at name 0) \<and>
     isdigit (c_at name 1) \<and>
     isdigit (c_at name 2) \<and>
     isdigit (c_at name 3) \<and>
     c_at name 4 = CHR ''-'' \<and>
     isdigit (c_at name 5) \<and>
     isdigit (c_at name 6) \<and>
     c_at name 7 = CHR ''-'' \<and>
     isdigit (c_at name 8) \<and>
     isdigit (c_at name 9) \<and>
     c_at name 10 = CHR ''-'' \<and>
     isdigit (c_at name 11) \<and>
     c_at name 12 = CHR ''.'' \<and>
     c_at name 13 = CHR ''l'' \<and>
     c_at name 14 = CHR ''o'' \<and>
     c_at name 15 = CHR ''g'' \<and>
     c_at name 16 = CHR ''.'' \<and>
     c_at name 17 = CHR ''g'' \<and>
     c_at name 18 = CHR ''z'' \<and>
     c_at name 19 = CHR 0x00"
proof -
  have f: "c_at log_format 0 = CHR ''n''"
    "c_at log_format 1 = CHR ''n''"
    "c_at log_format 2 = CHR ''n''"
    "c_at log_format 3 = CHR ''n''"
    "c_at log_format 4 = CHR ''-''"
    "c_at log_format 5 = CHR ''n''"
    "c_at log_format 6 = CHR ''n''"
    "c_at log_format 7 = CHR ''-''"
    "c_at log_format 8 = CHR ''n''"
    "c_at log_format 9 = CHR ''n''"
    "c_at log_format 10 = CHR ''-''"
    "c_at log_format 11 = CHR ''n''"
    "c_at log_format 12 = CHR ''.''"
    "c_at log_format 13 = CHR ''l''"
    "c_at log_format 14 = CHR ''o''"
    "c_at log_format 15 = CHR ''g''"
    "c_at log_format 16 = CHR ''.''"
    "c_at log_format 17 = CHR ''g''"
    "c_at log_format 18 = CHR ''z''"
    "c_at log_format 19 = CHR 0x00"
    by (simp_all add: c_at_def log_format_def)
  have s0: "isLogGzFile_from name 0 = (isdigit (c_at name 0) \<and> isLogGzFile_from name 1)"
    using isLogGzFile_digit[OF f(1), of 1 name] by simp
  have s1: "isLogGzFile_from name 1 = (isdigit (c_at name 1) \<and> isLogGzFile_from name 2)"
    using isLogGzFile_digit[OF f(2), of 2 name] by simp
  have s2: "isLogGzFile_from name 2 = (isdigit (c_at name 2) \<and> isLogGzFile_from name 3)"
    using isLogGzFile_digit[OF f(3), of 3 name] by simp
  have s3: "isLogGzFile_from name 3 = (isdigit (c_at name 3) \<and> isLogGzFile_from name 4)"
    using isLogGzFile_digit[OF f(4), of 4 name] by simp
  have s4: "isLogGzFile_from name 4 = (c_at name 4 = CHR ''-'' \<and> isLogGzFile_from name 5)"
    using isLogGzFile_literal[OF f(5), of 5 name] by simp
  have s5: "isLogGzFile_from name 5 = (isdigit (c_at name 5) \<and> isLogGzFile_from name 6)"
    using isLogGzFile_digit[OF f(6), of 6 name] by simp
  have s6: "isLogGzFile_from name 6 = (isdigit (c_at name 6) \<and> isLogGzFile_from name 7)"
    using isLogGzFile_digit[OF f(7), of 7 name] by simp
  have s7: "isLogGzFile_from name 7 = (c_at name 7 = CHR ''-'' \<and> isLogGzFile_from name 8)"
    using isLogGzFile_literal[OF f(8), of 8 name] by simp
  have s8: "isLogGzFile_from name 8 = (isdigit (c_at name 8) \<and> isLogGzFile_from name 9)"
    using isLogGzFile_digit[OF f(9), of 9 name] by simp
  have s9: "isLogGzFile_from name 9 = (isdigit (c_at name 9) \<and> isLogGzFile_from name 10)"
    using isLogGzFile_digit[OF f(10), of 10 name] by simp
  have s10: "isLogGzFile_from name 10 = (c_at name 10 = CHR ''-'' \<and> isLogGzFile_from name 11)"
    using isLogGzFile_literal[OF f(11), of 11 name] by simp
  have s11: "isLogGzFile_from name 11 = (isdigit (c_at name 11) \<and> isLogGzFile_from name 12)"
    using isLogGzFile_digit[OF f(12), of 12 name] by simp
  have s12: "isLogGzFile_from name 12 = (c_at name 12 = CHR ''.'' \<and> isLogGzFile_from name 13)"
    using isLogGzFile_literal[OF f(13), of 13 name] by simp
  have s13: "isLogGzFile_from name 13 = (c_at name 13 = CHR ''l'' \<and> isLogGzFile_from name 14)"
    using isLogGzFile_literal[OF f(14), of 14 name] by simp
  have s14: "isLogGzFile_from name 14 = (c_at name 14 = CHR ''o'' \<and> isLogGzFile_from name 15)"
    using isLogGzFile_literal[OF f(15), of 15 name] by simp
  have s15: "isLogGzFile_from name 15 = (c_at name 15 = CHR ''g'' \<and> isLogGzFile_from name 16)"
    using isLogGzFile_literal[OF f(16), of 16 name] by simp
  have s16: "isLogGzFile_from name 16 = (c_at name 16 = CHR ''.'' \<and> isLogGzFile_from name 17)"
    using isLogGzFile_literal[OF f(17), of 17 name] by simp
  have s17: "isLogGzFile_from name 17 = (c_at name 17 = CHR ''g'' \<and> isLogGzFile_from name 18)"
    using isLogGzFile_literal[OF f(18), of 18 name] by simp
  have s18: "isLogGzFile_from name 18 = (c_at name 18 = CHR ''z'' \<and> isLogGzFile_from name 19)"
    using isLogGzFile_literal[OF f(19), of 19 name] by simp
  have s19: "isLogGzFile_from name 19 = (c_at name 19 = CHR 0x00)"
    using isLogGzFile_end[OF f(20), of name] by simp
  show ?thesis unfolding isLogGzFile_def s0 s1 s2 s3 s4 s5 s6 s7 s8 s9 s10 s11 s12 s13 s14 s15 s16 s17 s18 s19 by simp
qed


lemma c_at_nonzero: "CHR 0x00 \<notin> set name \<Longrightarrow> c_at name i \<noteq> CHR 0x00 \<longleftrightarrow> i < length name"
  by (auto simp: c_at_def dest: nth_mem)

lemma c_at_nth: "i < length name \<Longrightarrow> c_at name i = name ! i"
  by (simp add: c_at_def)

lemma drop12_iff:
  assumes "length name = 19"
  shows "drop 12 name = ''.log.gz'' \<longleftrightarrow>
     name ! 12 = CHR ''.'' \<and> name ! 13 = CHR ''l'' \<and> name ! 14 = CHR ''o'' \<and> name ! 15 = CHR ''g'' \<and>
     name ! 16 = CHR ''.'' \<and> name ! 17 = CHR ''g'' \<and> name ! 18 = CHR ''z''"
proof -
  define d where "d = drop 12 name"
  have len: "length d = 7" using assms by (simp add: d_def)
  have nth: "d ! i = name ! (12 + i)" if "i < 7" for i using that assms by (simp add: d_def)
  obtain a b c e f g h where d: "d = [a, b, c, e, f, g, h]"
    using len by (auto simp: numeral_eq_Suc length_Suc_conv)
  have "name ! 12 = a" "name ! 13 = b" "name ! 14 = c" "name ! 15 = e" "name ! 16 = f"
       "name ! 17 = g" "name ! 18 = h"
    using nth[of 0] nth[of 1] nth[of 2] nth[of 3] nth[of 4] nth[of 5] nth[of 6] by (simp_all add: d)
  then show ?thesis unfolding d_def[symmetric] d by simp
qed

section \<open>The claims\<close>

text \<open>
  Claim C1 says that \<open>parseDirectory\<close> and \<open>autoParse\<close>, given an origin, change back to it
  on every exit path. \<open>parseDirectory\<close> returns -1 at line 136 when \<open>opendir\<close> fails, after
  line 132 has entered the directory; \<open>autoParse\<close> returns -1 at lines 242, 245, 256 and 259
  when the delegate reports -1 or 0 files. None of these paths reaches the \<open>chdir_s(origin)\<close>
  of lines 151 and 266, so the process stays in the directory it entered. The path of
  \<open>autoParse\<close> that parsed a file does change back.
\<close>

theorem working_directory_not_restored:
  "parseDirectory (Some ''locked'') (Some ''/home'') example_world
     = Some (Return (DirFailure, example_world\<lparr>cwd := [''home'', ''locked'']\<rparr>)) \<and>
   autoParse (Some ''empty'') (Some ''/home'') example_world
     = Some (Return (DirFailure, example_world\<lparr>cwd := [''home'', ''empty'']\<rparr>)) \<and>
   autoParse (Some ''locked'') (Some ''/home'') example_world
     = Some (Return (DirFailure, example_world\<lparr>cwd := [''home'', ''locked'']\<rparr>)) \<and>
   autoParse (Some ''logs'') (Some ''/home'') example_world
     = Some (Return (DirResult 3 350, example_world))"
  by code_simp

text \<open>
  Claim C2 says that the duration is the last successfully scanned timestamp minus the first,
  lines that fail to scan being skipped, so that a file with exactly one valid line has the
  duration 0. A line that fails to scan is not skipped: after the failed match the next call
  of \<open>parseLine\<close> scans the rest of the same line (see claim C4). In \<open>oneline.log\<close> the
  line \<open>[00:00:10] a\<close> is the only one that starts with a timestamp; the line
  \<open>x[00:01:00]\<close> is scanned again behind the \<open>x\<close>, and \<open>parseFile\<close> returns the duration 50.
\<close>

theorem parseFile_scans_inside_lines:
  "gzopen ''oneline.log'' example_world
     = Some (gzstream (''[00:00:10] a'' @ [LF] @ ''x[00:01:00]'' @ [LF])) \<and>
   template_timestamp ''[00:00:10] a'' = Some 10 \<and>
   template_timestamp ''x[00:01:00]'' = None \<and>
   parseFile ''oneline.log'' example_world
     = Some (Parsed 50, Some \<lparr>gz_buf = [], gz_past = True, gz_open = False, gz_err = False\<rparr>)"
  by code_simp

text \<open>
  Claim C3. A buffer that begins with the template \<open>[HH:MM:SS]\<close> makes \<open>parseLine\<close>
  succeed with the timestamp \<open>(h * 60 + m) * 60 + s\<close>, where \<open>h\<close>, \<open>m\<close>, \<open>s\<close> are the values
  of the two-digit fields; every other buffer (a non-digit in a digit slot, a wrong literal
  character, fewer than ten bytes left) makes it fail. The value of a two-digit field lies
  between 0 and 99.
\<close>

theorem parseLine_template:
  "fst (parseLine gf) = template_timestamp (gz_buf gf) \<and>
   (\<forall>a b. isdigit a \<and> isdigit b \<longrightarrow> 0 \<le> two_digits a b \<and> two_digits a b \<le> 99)"
  using parseLine_fst two_digits_range by blast

theorem parseLine_template_witness:
  "fst (parseLine (gzstream ''[12:34:56] [main/INFO]: Done'')) = Some ((12 * 60 + 34) * 60 + 56) \<and>
   fst (parseLine (gzstream ''[12:3x:56] [main/INFO]: Done'')) = None \<and>
   fst (parseLine (gzstream ''12:34:56] [main/INFO]: Done'')) = None \<and>
   fst (parseLine (gzstream ''[12:34:5'')) = None \<and>
   isdigit CHR ''9'' \<and> two_digits CHR ''9'' CHR ''9'' = 99"
  using parseLine_template[of "gzstream ''[12:34:56] [main/INFO]: Done''"]
        parseLine_template[of "gzstream ''[12:3x:56] [main/INFO]: Done''"]
        parseLine_template[of "gzstream ''12:34:56] [main/INFO]: Done''"]
        parseLine_template[of "gzstream ''[12:34:5''"]
  by (simp add: gzstream_def template_timestamp_def two_digits_def digit_val_def isdigit_def)

text \<open>
  Claim C4 says that after every call of \<open>parseLine\<close>, failed or not, the cursor is at the
  start of the next line. The \<open>return 1\<close> statements of lines 38, 42 and 51 leave the
  function before the two skipping loops of lines 54 and 55: after a failed match the cursor
  is right behind the byte that failed, inside the same line. Only a successful match moves on
  to the next line. The next call then scans the rest of the same line, so that a timestamp
  in the middle of a line is found: a file whose only line is \<open>x[00:00:10]\<close> is parsed.
\<close>

theorem parseLine_failure_stays_in_line:
  "parseLine (gzstream (''abc'' @ [LF] @ ''[00:00:10] x'' @ [LF]))
     = (None, gzstream (''bc'' @ [LF] @ ''[00:00:10] x'' @ [LF])) \<and>
   parseLine (gzstream (''[00:00:1x] [00:00:20]'' @ [LF] @ ''[00:00:30]'' @ [LF]))
     = (None, gzstream (''] [00:00:20]'' @ [LF] @ ''[00:00:30]'' @ [LF])) \<and>
   parseLine (gzstream (''[00:00:10] x'' @ [LF] @ ''[00:00:30]'' @ [LF]))
     = (Some 10, gzstream (''[00:00:30]'' @ [LF])) \<and>
   map_option fst (parseFile_stream (gzstream (''x[00:00:10]'' @ [LF]))) = Some (Parsed 0) \<and>
   map_option fst (parseFile_stream (gzstream (''[00:00:10] a'' @ [LF] @ ''x[00:01:00]'' @ [LF])))
     = Some (Parsed 50)"
  by code_simp

text \<open>
  Claim C5 says that \<open>parseDirectory\<close> returns the count and the sum for every directory it
  can enter and list, a failure on a single file being skipped. A file whose reads fail is
  not skipped: \<open>parseFile\<close> never returns on it (see claim C10), and so \<open>parseDirectory\<close>
  never returns. \<open>broken\<close> can be entered and listed and holds a directory with the name
  \<open>latest.log\<close>, which \<open>gzopen\<close> opens; \<open>archive\<close> can be entered and listed and holds a
  damaged archived log.
\<close>

theorem parseDirectory_never_returns:
  "enter_path (Some ''broken'') example_world = Some (example_world\<lparr>cwd := [''home'', ''broken'']\<rparr>) \<and>
   opendir_dot (example_world\<lparr>cwd := [''home'', ''broken'']\<rparr>) = Some [''.'', ''..'', ''latest.log''] \<and>
   parseDirectory (Some ''broken'') (Some ''/home'') example_world = None \<and>
   enter_path (Some ''archive'') example_world = Some (example_world\<lparr>cwd := [''home'', ''archive'']\<rparr>) \<and>
   opendir_dot (example_world\<lparr>cwd := [''home'', ''archive'']\<rparr>)
     = Some [''.'', ''..'', ''2023-10-07-1.log.gz''] \<and>
   parseDirectory (Some ''archive'') (Some ''/home'') example_world = None"
proof -
  let ?w1 = "example_world\<lparr>cwd := [''home'', ''broken'']\<rparr>"
  let ?w2 = "example_world\<lparr>cwd := [''home'', ''archive'']\<rparr>"
  have rf: "read_fails (gzfailing [])" by (simp add: read_fails_def gzfailing_def)
  have e1: "enter_path (Some ''broken'') example_world = Some ?w1" by code_simp
  have l1: "opendir_dot ?w1 = Some [''.'', ''..'', ''latest.log'']" by code_simp
  have r1: "read_logs [''.'', ''..'', ''latest.log''] ?w1 (0, 0) = Some (0, 0)" by code_simp
  have o1: "gzopen ''latest.log'' ?w1 = Some (gzfailing [])" by code_simp
  have p1: "parseFile ''latest.log'' ?w1 = None"
    by (simp add: parseFile_def o1 parseFile_stream_never_returns[OF rf])
  have d1: "parseDirectory (Some ''broken'') (Some ''/home'') example_world = None"
    by (simp only: parseDirectory_def e1 l1 r1 after_listing_def p1 option.case prod.case)
  have e2: "enter_path (Some ''archive'') example_world = Some ?w2" by code_simp
  have l2: "opendir_dot ?w2 = Some [''.'', ''..'', ''2023-10-07-1.log.gz'']" by code_simp
  have n: "\<not> isLogGzFile ''.''" "\<not> isLogGzFile ''..''" "isLogGzFile ''2023-10-07-1.log.gz''"
    by code_simp+
  have o2: "gzopen ''2023-10-07-1.log.gz'' ?w2 = Some (gzfailing [])" by code_simp
  have p2: "parseFile ''2023-10-07-1.log.gz'' ?w2 = None"
    by (simp add: parseFile_def o2 parseFile_stream_never_returns[OF rf])
  have r2: "read_logs [''.'', ''..'', ''2023-10-07-1.log.gz''] ?w2 (0, 0) = None"
    by (simp add: n p2)
  have d2: "parseDirectory (Some ''archive'') (Some ''/home'') example_world = None"
    by (simp only: parseDirectory_def e2 l2 r2 option.case)
  show ?thesis using e1 l1 d1 e2 l2 d2 by blast
qed

text \<open>
  Claim C6 says that every timestamp of a successful match lies in \<open>[0, 86399]\<close>. The scanner
  does not check the fields against 23 and 59: \<open>[24:00:00]\<close> is accepted and gives 86400.
\<close>

theorem parseLine_exceeds_day: 
  "fst (parseLine (gzstream ''[24:00:00]'')) = Some 86400 \<and> \<not> (86400 \<le> (86399::int))"
  by (simp add: parseLine_fst gzstream_def template_timestamp_def two_digits_def digit_val_def isdigit_def)

text \<open>
  Claim C6, amended. Every timestamp of a successful match lies in \<open>[0, 362439]\<close>, the value
  of \<open>[99:99:99]\<close>, since each of the three fields is only known to be two decimal digits.
\<close>

theorem parseLine_timestamp_range:
  assumes "fst (parseLine gf) = Some t"
  shows "0 \<le> t \<and> t \<le> 362439"
proof -
  let ?bs = "gz_buf gf"
  have tt: "template_timestamp ?bs = Some t" using assms by (simp add: parseLine_fst)
  then have d: "isdigit (?bs ! 1)" "isdigit (?bs ! 2)" "isdigit (?bs ! 4)" "isdigit (?bs ! 5)"
       "isdigit (?bs ! 7)" "isdigit (?bs ! 8)"
    and t: "t = (two_digits (?bs ! 1) (?bs ! 2) * 60 + two_digits (?bs ! 4) (?bs ! 5)) * 60
                 + two_digits (?bs ! 7) (?bs ! 8)"
    by (auto simp: template_timestamp_def split: if_splits)
  from two_digits_range[OF d(1,2)] two_digits_range[OF d(3,4)] two_digits_range[OF d(5,6)]
  show ?thesis unfolding t by simp
qed

theorem parseLine_timestamp_range_witness:
  "fst (parseLine (gzstream ''[99:99:99]'')) = Some 362439 \<and> (0::int) \<le> 362439 \<and> (362439::int) \<le> 362439"
proof -
  have h: "fst (parseLine (gzstream ''[99:99:99]'')) = Some 362439"
    by (simp add: parseLine_fst gzstream_def template_timestamp_def two_digits_def digit_val_def isdigit_def)
  from parseLine_timestamp_range[OF h] h show ?thesis by simp
qed

text \<open>
  Claim C7 says that \<open>parseFile\<close> closes the stream it opened on every exit path. The
  \<open>return 2\<close> of line 74 leaves the function without \<open>gzclose\<close>: on a file without a
  timestamp the stream is still open when \<open>parseFile\<close> returns, while the path through
  line 79 closes it.
\<close>

theorem parseFile_leaves_stream_open:
  "parseFile ''logs/empty.txt'' example_world
     = Some (FormatFailure, Some \<lparr>gz_buf = [], gz_past = True, gz_open = True, gz_err = False\<rparr>) \<and>
   parseFile ''logs/notes.txt'' example_world
     = Some (FormatFailure, Some \<lparr>gz_buf = [], gz_past = True, gz_open = True, gz_err = False\<rparr>) \<and>
   parseFile ''logs/latest.log'' example_world
     = Some (Parsed 50, Some \<lparr>gz_buf = [], gz_past = True, gz_open = False, gz_err = False\<rparr>)"
  by code_simp

text \<open>
  Claim C8 says that every file that opens and holds no line with a valid timestamp gives
  \<open>FormatFailure\<close>. The only line of \<open>midline.log\<close> is \<open>x[00:00:10]\<close>, which does not start
  with a timestamp; after the failed match on \<open>x\<close> the next call of \<open>parseLine\<close> scans the
  rest of the line (see claim C4), and \<open>parseFile\<close> returns 0 with the duration 0. The damaged
  log in \<open>archive\<close> opens and holds no line at all; \<open>parseFile\<close> never returns on it (see
  claim C10). A file that cannot be opened gives \<open>SystemFailure\<close>, an empty file
  \<open>FormatFailure\<close>.
\<close>

theorem parseFile_without_valid_line:
  "gzopen ''midline.log'' example_world = Some (gzstream (''x[00:00:10]'' @ [LF])) \<and>
   template_timestamp ''x[00:00:10]'' = None \<and>
   parseFile ''midline.log'' example_world
     = Some (Parsed 0, Some \<lparr>gz_buf = [], gz_past = True, gz_open = False, gz_err = False\<rparr>) \<and>
   gzopen ''archive/2023-10-07-1.log.gz'' example_world = Some (gzfailing []) \<and>
   parseFile ''archive/2023-10-07-1.log.gz'' example_world = None \<and>
   parseFile ''logs/secret.txt'' example_world = Some (SystemFailure, None) \<and>
   map_option fst (parseFile ''logs/empty.txt'' example_world) = Some FormatFailure"
proof -
  have a: "gzopen ''midline.log'' example_world = Some (gzstream (''x[00:00:10]'' @ [LF]))"
    by code_simp
  have b: "template_timestamp ''x[00:00:10]'' = None" by code_simp
  have c: "parseFile ''midline.log'' example_world
     = Some (Parsed 0, Some \<lparr>gz_buf = [], gz_past = True, gz_open = False, gz_err = False\<rparr>)"
    by code_simp
  have rf: "read_fails (gzfailing [])" by (simp add: read_fails_def gzfailing_def)
  have o: "gzopen ''archive/2023-10-07-1.log.gz'' example_world = Some (gzfailing [])" by code_simp
  have p: "parseFile ''archive/2023-10-07-1.log.gz'' example_world = None"
    by (simp add: parseFile_def o parseFile_stream_never_returns[OF rf])
  have s: "parseFile ''logs/secret.txt'' example_world = Some (SystemFailure, None)" by code_simp
  have f: "map_option fst (parseFile ''logs/empty.txt'' example_world) = Some FormatFailure"
    by code_simp
  show ?thesis using a b c o p s f by blast
qed

text \<open>
  Claim C9. \<open>isLogGzFile\<close> accepts a file name exactly when it is four digits, a hyphen, two
  digits, a hyphen, two digits, a hyphen, one digit and then \<open>.log.gz\<close>, with nothing behind
  it. The name is a C string, so it holds no NUL byte.
\<close>

theorem isLogGzFile_iff_template:
  assumes "CHR 0x00 \<notin> set name"
  shows "isLogGzFile name \<longleftrightarrow> log_gz_name name"
proof
  assume "isLogGzFile name"
  then have c: "isdigit (c_at name 0)" "isdigit (c_at name 1)" "isdigit (c_at name 2)"
      "isdigit (c_at name 3)" "c_at name 4 = CHR ''-''" "isdigit (c_at name 5)"
      "isdigit (c_at name 6)" "c_at name 7 = CHR ''-''" "isdigit (c_at name 8)"
      "isdigit (c_at name 9)" "c_at name 10 = CHR ''-''" "isdigit (c_at name 11)"
      "c_at name 12 = CHR ''.''" "c_at name 13 = CHR ''l''" "c_at name 14 = CHR ''o''"
      "c_at name 15 = CHR ''g''" "c_at name 16 = CHR ''.''" "c_at name 17 = CHR ''g''"
      "c_at name 18 = CHR ''z''" "c_at name 19 = CHR 0x00"
    unfolding isLogGzFile_unfold by simp_all
  have "c_at name 18 \<noteq> CHR 0x00" using c(19) by simp
  then have "18 < length name" using c_at_nonzero[OF assms] by blast
  moreover have "\<not> 19 < length name" using c(20) c_at_nonzero[OF assms, of 19] by blast
  ultimately have len: "length name = 19" by simp
  have nth: "c_at name i = name ! i" if "i < 19" for i using that len by (simp add: c_at_def)
  show "log_gz_name name"
    unfolding log_gz_name_def drop12_iff[OF len]
    using c len by (simp add: nth[symmetric])
next
  assume "log_gz_name name"
  then have len: "length name = 19" and d: "drop 12 name = ''.log.gz''"
    and n: "isdigit (name ! 0)" "isdigit (name ! 1)" "isdigit (name ! 2)" "isdigit (name ! 3)"
      "name ! 4 = CHR ''-''" "isdigit (name ! 5)" "isdigit (name ! 6)"
      "name ! 7 = CHR ''-''" "isdigit (name ! 8)" "isdigit (name ! 9)"
      "name ! 10 = CHR ''-''" "isdigit (name ! 11)"
    unfolding log_gz_name_def by simp_all
  have nth: "c_at name i = name ! i" if "i < 19" for i using that len by (simp add: c_at_def)
  have "c_at name 19 = CHR 0x00" using len by (simp add: c_at_def)
  then show "isLogGzFile name"
    unfolding isLogGzFile_unfold using n d[unfolded drop12_iff[OF len]] by (simp add: nth)
qed

theorem isLogGzFile_iff_template_witness:
  "CHR 0x00 \<notin> set ''2023-10-05-1.log.gz'' \<and>
   isLogGzFile ''2023-10-05-1.log.gz'' \<and>
   \<not> isLogGzFile ''2023-10-05-1.log'' \<and>
   \<not> isLogGzFile ''23-10-05-1.log.gz'' \<and>
   \<not> isLogGzFile ''2023-10-05-a.log.gz'' \<and>
   \<not> isLogGzFile ''2023-10-05-1.log.gz.old''"
  using isLogGzFile_iff_template[of "''2023-10-05-1.log.gz''"]
        isLogGzFile_iff_template[of "''2023-10-05-1.log''"]
        isLogGzFile_iff_template[of "''23-10-05-1.log.gz''"]
        isLogGzFile_iff_template[of "''2023-10-05-a.log.gz''"]
        isLogGzFile_iff_template[of "''2023-10-05-1.log.gz.old''"]
  by (simp add: log_gz_name_def isdigit_def)

text \<open>
  Claim C10 says that \<open>parseFile\<close> terminates on every finite input stream, since every call
  of \<open>parseLine\<close> observes the end of the stream or consumes a byte. \<open>gzgetc\<close> returns -1
  not only at the end of the file but also when a read fails, and then \<open>gzeof\<close> stays 0.
  \<open>parseLine\<close> takes the -1 for the end of the stream and returns 1 with nothing consumed,
  and the loops of lines 72 to 78 test only \<open>gzeof\<close>: on a stream whose reads fail neither
  loop can end. On the damaged log of \<open>archive\<close> the first loop never ends; on a damaged log
  that starts with a timestamp the second one never ends.
\<close>

theorem parseFile_never_returns:
  "parseLine (gzfailing []) = (None, gzfailing []) \<and>
   \<not> gzeof (gzfailing []) \<and>
   parseFile_stream (gzfailing []) = None \<and>
   parseLine (gzfailing ''[00:00:10]'') = (Some 10, gzfailing []) \<and>
   parseFile_stream (gzfailing ''[00:00:10]'') = None \<and>
   gzopen ''archive/2023-10-07-1.log.gz'' example_world = Some (gzfailing []) \<and>
   parseFile ''archive/2023-10-07-1.log.gz'' example_world = None"
proof -
  have a: "parseLine (gzfailing []) = (None, gzfailing [])" by code_simp
  have b: "\<not> gzeof (gzfailing [])" by code_simp
  have rf: "read_fails (gzfailing bs)" for bs by (simp add: read_fails_def gzfailing_def)
  have c: "parseFile_stream (gzfailing bs) = None" for bs
    by (rule parseFile_stream_never_returns[OF rf])
  have d: "parseLine (gzfailing ''[00:00:10]'') = (Some 10, gzfailing [])" by code_simp
  have o: "gzopen ''archive/2023-10-07-1.log.gz'' example_world = Some (gzfailing [])" by code_simp
  have p: "parseFile ''archive/2023-10-07-1.log.gz'' example_world = None"
    by (simp add: parseFile_def o c)
  show ?thesis using a b c d o p by blast
qed

end
